theory Spec2Isabelle
  imports
    Main
    "HOL-Library.AList"
    "HOL-Library.Multiset"
    "HOL-Library.Char_ord"
    "HOL-Library.List_Lexorder"
begin

section \<open>Scorecard: the game state of App.tsx and its derived views\<close>

text \<open>
  The development embeds the state logic of the Scorecard application (the \<open>App\<close>
  component and \<open>types.ts\<close>): the five persisted state fields with their
  initialisers, the three derived values (\<open>totalScores\<close>, \<open>leaderId\<close>,
  \<open>sortedPlayers\<close>) and the event handlers.

  Conventions of the embedding.
  \<^item> A handler is a function from the state it was rendered with to the next state; the
    text the user typed, the clock reading of \<open>Date.now()\<close> and the answer of the
    \<open>confirm\<close> dialog are arguments. The state of the dialogs
    (\<open>isAddPlayerModalOpen\<close>, \<open>newPlayerName\<close>, \<open>showDeleteConfirm\<close>) and the
    writes of the persistence effects are left out.
  \<^item> A JavaScript string is a \<open>string\<close> (code units below 256).
  \<^item> A score is an \<open>int\<close>: \<open>handleScoreChange\<close> stores only what \<open>parseInt\<close>
    returned and was not \<open>NaN\<close>. The numbers of the code are doubles, which hold
    every integer below \<open>2^53\<close> in absolute value exactly; up to there the arithmetic of
    the code is that of \<open>int\<close>. Beyond, the code rounds (and reaches \<open>Infinity\<close>),
    which is not modelled: the statements about the values of totals assume
    \<open>safeScores\<close>.
  \<^item> A value that can be \<open>NaN\<close> (the result of \<open>parseInt\<close>, hence
    \<open>activeRoundIndex\<close>) is a \<open>number\<close>.
  \<^item> An object used as a dictionary (\<open>RoundScores\<close>) is an association list, the
    list that \<open>Object.entries\<close> returns; an object has every key once, which is the
    predicate \<open>distinctKeys\<close>. The \<open>totals\<close> object, only ever read by key, is a
    map; it has no entry for the names of the properties of \<open>Object.prototype\<close>, under
    which the code's object has inherited values, so the statements about totals assume
    \<open>plainKeys\<close>.
  \<^item> \<open>JSON.parse\<close> and \<open>String.prototype.localeCompare\<close> belong to the platform and
    are parameters; \<open>JSON.parse\<close> returns a value of the type the state field is
    declared with, or throws.
\<close>

subsection \<open>types.ts\<close>

record Player =
  idP :: string
  name :: string

type_synonym RoundScores = "(string \<times> int) list"

type_synonym GameHistory = "RoundScores list"

subsection \<open>State of the App component\<close>

datatype number = NaN | Num int

datatype WinCondition = high | low

datatype SortOption = defaultSort | scoreDesc | scoreAsc | nameAsc

record GameState =
  players :: "Player list"
  rounds :: GameHistory
  activeRoundIndex :: number
  winCondition :: WinCondition
  sortBy :: SortOption

definition distinctKeys :: "GameState \<Rightarrow> bool" where
  "distinctKeys s = list_all (\<lambda>r. distinct (map fst r)) (rounds s)"

subsection \<open>Strings and numbers of the platform\<close>

text \<open>
  White space as \<open>trim\<close> and \<open>parseInt\<close> skip it (WhiteSpace and LineTerminator of
  ECMAScript), for the code units below 256: TAB, LF, VT, FF, CR, SP and NBSP.
\<close>

definition isWhiteSpace :: "char \<Rightarrow> bool" where
  "isWhiteSpace c = ((of_char c :: nat) \<in> {9, 10, 11, 12, 13, 32, 160})"

definition trim :: "string \<Rightarrow> string" where
  "trim str = rev (dropWhile isWhiteSpace (rev (dropWhile isWhiteSpace str)))"

definition isDigit :: "char \<Rightarrow> bool" where
  "isDigit c = (48 \<le> (of_char c :: nat) \<and> (of_char c :: nat) \<le> 57)"

definition digitValue :: "char \<Rightarrow> nat" where
  "digitValue c = of_char c - 48"

definition digitsValue :: "string \<Rightarrow> nat" where
  "digitsValue ds = foldl (\<lambda>acc c. 10 * acc + digitValue c) 0 ds"

text \<open>
  \<open>parseInt(str, 10)\<close>: skip leading white space, read an optional sign, then the longest
  run of decimal digits; \<open>NaN\<close> when that run is empty. What follows the digits is
  ignored. The value is the exact integer; the code returns the nearest double, which is
  that integer below \<open>2^53\<close>, and \<open>Infinity\<close> from about 309 digits on.
\<close>

definition parseDigits :: "int \<Rightarrow> string \<Rightarrow> number" where
  "parseDigits sign rest =
     (let z = takeWhile isDigit rest
      in if z = [] then NaN else Num (sign * int (digitsValue z)))"

definition parseInt :: "string \<Rightarrow> number" where
  "parseInt str =
     (case dropWhile isWhiteSpace str of
        [] \<Rightarrow> NaN
      | c # rest \<Rightarrow>
          if c = CHR ''-'' then parseDigits (- 1) rest
          else if c = CHR ''+'' then parseDigits 1 rest
          else parseDigits 1 (c # rest))"

text \<open>\<open>Number.prototype.toString\<close> on an integer (below \<open>10^21\<close>): its decimal digits.\<close>

definition digitChar :: "nat \<Rightarrow> char" where
  "digitChar d = ''0123456789'' ! d"

fun natToString :: "nat \<Rightarrow> string" where
  "natToString n =
     (if n < 10 then [digitChar n] else natToString (n div 10) @ [digitChar (n mod 10)])"

definition numberToString :: "int \<Rightarrow> string" where
  "numberToString i = (if i < 0 then CHR ''-'' # natToString (nat (- i)) else natToString (nat i))"

subsection \<open>Initial state: the \<open>useState\<close> initialisers\<close>

text \<open>
  What \<open>localStorage.getItem\<close> does for a key: it throws, returns \<open>null\<close>, or returns
  the saved string. \<open>JSON.parse\<close> is a parameter returning \<open>None\<close> where it throws.
\<close>

datatype getItem = Throws | Null | Saved string

type_synonym localStorage = "string \<Rightarrow> getItem"

definition initPlayers :: "(string \<Rightarrow> Player list option) \<Rightarrow> localStorage \<Rightarrow> Player list" where
  "initPlayers jsonParse storage =
     (case storage ''cardScore_players'' of
        Throws \<Rightarrow> []
      | Null \<Rightarrow> []
      | Saved saved \<Rightarrow>
          if saved = [] then []
          else (case jsonParse saved of None \<Rightarrow> [] | Some ps \<Rightarrow> ps))"

definition initRounds :: "(string \<Rightarrow> GameHistory option) \<Rightarrow> localStorage \<Rightarrow> GameHistory" where
  "initRounds jsonParse storage =
     (case storage ''cardScore_rounds'' of
        Throws \<Rightarrow> [[]]
      | Null \<Rightarrow> [[]]
      | Saved saved \<Rightarrow>
          if saved = [] then [[]]
          else (case jsonParse saved of None \<Rightarrow> [[]] | Some rs \<Rightarrow> rs))"

definition initActiveRoundIndex :: "localStorage \<Rightarrow> number" where
  "initActiveRoundIndex storage =
     (case storage ''cardScore_activeRoundIndex'' of
        Throws \<Rightarrow> Num 0
      | Null \<Rightarrow> Num 0
      | Saved saved \<Rightarrow> if saved = [] then Num 0 else parseInt saved)"

definition initWinCondition :: "localStorage \<Rightarrow> WinCondition" where
  "initWinCondition storage =
     (case storage ''cardScore_winCondition'' of
        Throws \<Rightarrow> high
      | Null \<Rightarrow> high
      | Saved saved \<Rightarrow>
          if saved = ''high'' then high else if saved = ''low'' then low else high)"

definition initSortBy :: "localStorage \<Rightarrow> SortOption" where
  "initSortBy storage =
     (case storage ''cardScore_sortBy'' of
        Throws \<Rightarrow> defaultSort
      | Null \<Rightarrow> defaultSort
      | Saved saved \<Rightarrow>
          if saved = ''default'' then defaultSort
          else if saved = ''scoreDesc'' then scoreDesc
          else if saved = ''scoreAsc'' then scoreAsc
          else if saved = ''nameAsc'' then nameAsc
          else defaultSort)"

definition initialState ::
  "(string \<Rightarrow> Player list option) \<Rightarrow> (string \<Rightarrow> GameHistory option) \<Rightarrow> localStorage \<Rightarrow> GameState"
where
  "initialState parsePlayers parseRounds storage =
     \<lparr>players = initPlayers parsePlayers storage,
      rounds = initRounds parseRounds storage,
      activeRoundIndex = initActiveRoundIndex storage,
      winCondition = initWinCondition storage,
      sortBy = initSortBy storage\<rparr>"

subsection \<open>Derived state\<close>

text \<open>
  \<open>totalScores\<close>: every player's id is set to 0, then each entry of each round is added
  to the total of its key when that key has a total. The sums are exact, as the code's
  are for safe scores; a key has a total when it is a player's id, as in the code for
  plain keys.
\<close>

definition initTotals :: "Player list \<Rightarrow> (string \<rightharpoonup> int)" where
  "initTotals ps = foldl (\<lambda>totals p. totals(idP p \<mapsto> 0)) Map.empty ps"

definition addEntry :: "(string \<rightharpoonup> int) \<Rightarrow> string \<times> int \<Rightarrow> (string \<rightharpoonup> int)" where
  "addEntry totals e =
     (case totals (fst e) of
        None \<Rightarrow> totals
      | Some t \<Rightarrow> totals(fst e \<mapsto> t + snd e))"

definition addRound :: "(string \<rightharpoonup> int) \<Rightarrow> RoundScores \<Rightarrow> (string \<rightharpoonup> int)" where
  "addRound totals round = foldl addEntry totals round"

definition totalScores :: "GameState \<Rightarrow> (string \<rightharpoonup> int)" where
  "totalScores s = foldl addRound (initTotals (players s)) (rounds s)"

text \<open>
  \<open>rounds[activeRoundIndex] || {}\<close>: an index that is no element of the array reads
  \<open>undefined\<close>, which becomes the empty object. (After a write under a negative index
  or \<open>NaN\<close> the code reads that written property back; see \<open>arraySet\<close>.)
\<close>

definition arrayGet :: "GameHistory \<Rightarrow> number \<Rightarrow> RoundScores" where
  "arrayGet rs ix =
     (case ix of
        NaN \<Rightarrow> []
      | Num i \<Rightarrow> if 0 \<le> i \<and> i < int (length rs) then rs ! nat i else [])"

definition currentRoundScores :: "GameState \<Rightarrow> RoundScores" where
  "currentRoundScores s = arrayGet (rounds s) (activeRoundIndex s)"

text \<open>
  \<open>leaderId\<close>. \<open>bestScore\<close> starts at an infinity; a total that is \<open>undefined\<close>
  compares false with everything. The totals are finite integers, as the code's are for
  safe scores.
\<close>

datatype best = NegInfinity | Finite int | PosInfinity

fun gtBest :: "int \<Rightarrow> best \<Rightarrow> bool" where
  "gtBest x NegInfinity = True"
| "gtBest x (Finite b) = (b < x)"
| "gtBest x PosInfinity = False"

fun ltBest :: "int \<Rightarrow> best \<Rightarrow> bool" where
  "ltBest x NegInfinity = False"
| "ltBest x (Finite b) = (x < b)"
| "ltBest x PosInfinity = True"

definition leaderStep ::
  "WinCondition \<Rightarrow> (string \<rightharpoonup> int) \<Rightarrow> best \<times> string option \<Rightarrow> Player \<Rightarrow> best \<times> string option"
where
  "leaderStep wc totals acc p =
     (case totals (idP p) of
        None \<Rightarrow> acc
      | Some score \<Rightarrow>
          if wc = high then
            (if gtBest score (fst acc) then (Finite score, Some (idP p)) else acc)
          else
            (if ltBest score (fst acc) then (Finite score, Some (idP p)) else acc))"

definition leaderOf :: "Player list \<Rightarrow> (string \<rightharpoonup> int) \<Rightarrow> WinCondition \<Rightarrow> string option" where
  "leaderOf ps totals wc =
     (if length ps = 0 then None
      else if list_all (\<lambda>p. totals (idP p) = Some 0) ps then None
      else snd (foldl (leaderStep wc totals)
                  (if wc = high then NegInfinity else PosInfinity, None) ps))"

definition leaderId :: "GameState \<Rightarrow> string option" where
  "leaderId s = leaderOf (players s) (totalScores s) (winCondition s)"

text \<open>
  \<open>sortedPlayers\<close>. \<open>Array.prototype.sort\<close> is stable and, for a consistent comparator,
  returns the one stable sorted arrangement; insertion from the right computes it.
\<close>

fun insertCmp :: "('a \<Rightarrow> 'a \<Rightarrow> int) \<Rightarrow> 'a \<Rightarrow> 'a list \<Rightarrow> 'a list" where
  "insertCmp cmp x [] = [x]"
| "insertCmp cmp x (y # ys) = (if cmp x y \<le> 0 then x # y # ys else y # insertCmp cmp x ys)"

definition sortCmp :: "('a \<Rightarrow> 'a \<Rightarrow> int) \<Rightarrow> 'a list \<Rightarrow> 'a list" where
  "sortCmp cmp xs = foldr (insertCmp cmp) xs []"

text \<open>
  The difference of two totals as the sort reads it: with an operand \<open>undefined\<close> the
  difference is \<open>NaN\<close>, which \<open>sort\<close> takes as 0.
\<close>

definition subtract :: "int option \<Rightarrow> int option \<Rightarrow> int" where
  "subtract x y = (case x of None \<Rightarrow> 0 | Some a \<Rightarrow> (case y of None \<Rightarrow> 0 | Some b \<Rightarrow> a - b))"

definition sortedPlayers :: "(string \<Rightarrow> string \<Rightarrow> int) \<Rightarrow> GameState \<Rightarrow> Player list" where
  "sortedPlayers localeCompare s =
     (let sorted = players s; totals = totalScores s
      in case sortBy s of
           scoreDesc \<Rightarrow> sortCmp (\<lambda>a b. subtract (totals (idP b)) (totals (idP a))) sorted
         | scoreAsc \<Rightarrow> sortCmp (\<lambda>a b. subtract (totals (idP a)) (totals (idP b))) sorted
         | nameAsc \<Rightarrow> sortCmp (\<lambda>a b. localeCompare (name a) (name b)) sorted
         | defaultSort \<Rightarrow> sorted)"

subsection \<open>Handlers\<close>

definition handleAddPlayer :: "int \<Rightarrow> string \<Rightarrow> GameState \<Rightarrow> GameState" where
  "handleAddPlayer now newPlayerName s =
     (if trim newPlayerName = [] then s
      else s\<lparr>players := players s @ [\<lparr>idP = numberToString now, name = trim newPlayerName\<rparr>]\<rparr>)"

text \<open>
  \<open>newRounds[activeRoundIndex] = v\<close> on the copy of the array. Inside the array it
  replaces the element. Beyond the end JavaScript extends the array and the skipped
  places are holes; \<open>forEach\<close> skips a hole and \<open>|| {}\<close> reads it as the empty object,
  so a hole is written here as the empty round. (The next copy of such an array turns its
  holes into \<open>undefined\<close>, which \<open>totalScores\<close> cannot read; this needs a state whose
  index is no index of \<open>rounds\<close>, and the statements about \<open>handleScoreChange\<close> below
  that depend on the written round assume a valid index.) A negative index or \<open>NaN\<close>
  names a property that is no element, so the elements stay as they are; the property
  itself, which only \<open>rounds[activeRoundIndex]\<close> reads back until the next copy drops
  it, is not modelled.
\<close>

definition arraySet :: "GameHistory \<Rightarrow> number \<Rightarrow> RoundScores \<Rightarrow> GameHistory" where
  "arraySet rs ix v =
     (case ix of
        NaN \<Rightarrow> rs
      | Num i \<Rightarrow>
          if i < 0 then rs
          else if i < int (length rs) then rs[nat i := v]
          else rs @ replicate (nat i - length rs) [] @ [v])"

definition handleScoreChange :: "string \<Rightarrow> string \<Rightarrow> GameState \<Rightarrow> GameState" where
  "handleScoreChange playerId val s =
     (let numValue = (if val = [] then Num 0 else parseInt val)
      in case numValue of
           NaN \<Rightarrow> s
         | Num n \<Rightarrow>
             s\<lparr>rounds := arraySet (rounds s) (activeRoundIndex s)
                  (AList.update playerId n (arrayGet (rounds s) (activeRoundIndex s)))\<rparr>)"

definition plusOne :: "number \<Rightarrow> number" where
  "plusOne x = (case x of NaN \<Rightarrow> NaN | Num i \<Rightarrow> Num (i + 1))"

definition minusOne :: "number \<Rightarrow> number" where
  "minusOne x = (case x of NaN \<Rightarrow> NaN | Num i \<Rightarrow> Num (i - 1))"

definition isPositive :: "number \<Rightarrow> bool" where
  "isPositive x = (case x of NaN \<Rightarrow> False | Num i \<Rightarrow> 0 < i)"

definition handleNextRound :: "GameState \<Rightarrow> GameState" where
  "handleNextRound s =
     (let s' = (if activeRoundIndex s = Num (int (length (rounds s)) - 1)
                then s\<lparr>rounds := rounds s @ [[]]\<rparr> else s)
      in s'\<lparr>activeRoundIndex := plusOne (activeRoundIndex s)\<rparr>)"

definition handlePrevRound :: "GameState \<Rightarrow> GameState" where
  "handlePrevRound s =
     (if isPositive (activeRoundIndex s)
      then s\<lparr>activeRoundIndex := minusOne (activeRoundIndex s)\<rparr> else s)"

definition handleDeletePlayer :: "string \<Rightarrow> GameState \<Rightarrow> GameState" where
  "handleDeletePlayer i s = s\<lparr>players := filter (\<lambda>p. idP p \<noteq> i) (players s)\<rparr>"

definition resetGame :: "bool \<Rightarrow> GameState \<Rightarrow> GameState" where
  "resetGame confirmed s =
     (if confirmed then s\<lparr>rounds := [[]], activeRoundIndex := Num 0\<rparr> else s)"

definition toggleWinCondition :: "GameState \<Rightarrow> GameState" where
  "toggleWinCondition s = s\<lparr>winCondition := (if winCondition s = high then low else high)\<rparr>"

definition setSortBy :: "SortOption \<Rightarrow> GameState \<Rightarrow> GameState" where
  "setSortBy opt s = s\<lparr>sortBy := opt\<rparr>"

text \<open>The events of the user interface and the handler each one runs.\<close>

datatype event =
    AddPlayer int string
  | ScoreChange string string
  | NextRound
  | PrevRound
  | DeletePlayer string
  | ResetGame bool
  | ToggleWinCondition
  | SetSortBy SortOption

fun handle :: "event \<Rightarrow> GameState \<Rightarrow> GameState" where
  "handle (AddPlayer now nm) s = handleAddPlayer now nm s"
| "handle (ScoreChange playerId val) s = handleScoreChange playerId val s"
| "handle NextRound s = handleNextRound s"
| "handle PrevRound s = handlePrevRound s"
| "handle (DeletePlayer i) s = handleDeletePlayer i s"
| "handle (ResetGame confirmed) s = resetGame confirmed s"
| "handle ToggleWinCondition s = toggleWinCondition s"
| "handle (SetSortBy opt) s = setSortBy opt s"

subsection \<open>Specification functions\<close>

text \<open>
  The sum of the entries of key \<open>k\<close> in a round: the contribution of that round to the
  total of \<open>k\<close>. A round has at most one such entry (lemma \<open>scoreIn_map_of\<close>).
\<close>

definition scoreIn :: "RoundScores \<Rightarrow> string \<Rightarrow> int" where
  "scoreIn r k = sum_list (map snd (filter (\<lambda>e. fst e = k) r))"

text \<open>The total of a player: the sum of the entries of the player's id over all rounds.\<close>

definition totalOf :: "GameState \<Rightarrow> Player \<Rightarrow> int" where
  "totalOf s p = (\<Sum>r\<leftarrow>rounds s. scoreIn r (idP p))"

text \<open>
  The scores are safe integers: for every player, the absolute values of the entries
  under the player's id add up to less than \<open>2^53\<close>. Then every running total that
  \<open>totalScores\<close> forms is an integer that a JavaScript number holds exactly, and the
  exact integers of this embedding are the numbers of the code.
\<close>

definition safeScores :: "GameState \<Rightarrow> bool" where
  "safeScores s =
     list_all
       (\<lambda>p. (\<Sum>r\<leftarrow>rounds s. \<Sum>e\<leftarrow>filter (\<lambda>e. fst e = idP p) r. \<bar>snd e\<bar>) < 2 ^ 53)
       (players s)"

text \<open>
  The names of the properties of \<open>Object.prototype\<close>. Under such a name the object
  \<open>totals\<close> has a value before anything is stored in it, so \<open>totals[k] !== undefined\<close>
  holds for it; \<open>plainKeys\<close> says that no player id and no key of a round is one of
  them. The ids that \<open>handleAddPlayer\<close> makes are decimal strings, which are none of
  them (lemma \<open>numberToString_plain\<close>).
\<close>

definition objectPrototypeKeys :: "string list" where
  "objectPrototypeKeys =
     [''constructor'', ''hasOwnProperty'', ''isPrototypeOf'', ''propertyIsEnumerable'',
      ''toLocaleString'', ''toString'', ''valueOf'', ''__proto__'',
      ''__defineGetter__'', ''__defineSetter__'', ''__lookupGetter__'', ''__lookupSetter__'']"

definition plainKeys :: "GameState \<Rightarrow> bool" where
  "plainKeys s =
     (list_all (\<lambda>p. idP p \<notin> set objectPrototypeKeys) (players s)
      \<and> list_all (list_all (\<lambda>e. fst e \<notin> set objectPrototypeKeys)) (rounds s))"

text \<open>
  The invariant of the round pointer: \<open>activeRoundIndex\<close> is an index of \<open>rounds\<close>,
  and there is at least one round.
\<close>

definition roundIndexValid :: "GameState \<Rightarrow> bool" where
  "roundIndexValid s =
     ((case activeRoundIndex s of
         NaN \<Rightarrow> False
       | Num i \<Rightarrow> 0 \<le> i \<and> i \<le> int (length (rounds s)) - 1)
      \<and> 1 \<le> length (rounds s))"

text \<open>
  A comparator of strings by their code units, total and transitive; it stands for
  \<open>localeCompare\<close> where an example needs a concrete one.
\<close>

definition ordinalCompare :: "string \<Rightarrow> string \<Rightarrow> int" where
  "ordinalCompare a b = (if a < b then - 1 else if a = b then 0 else 1)"

subsection \<open>Example states\<close>

definition alice :: Player where
  "alice = \<lparr>idP = ''1700000000001'', name = ''Alice''\<rparr>"

definition bob :: Player where
  "bob = \<lparr>idP = ''1700000000002'', name = ''Bob''\<rparr>"

definition carl :: Player where
  "carl = \<lparr>idP = ''1700000000003'', name = ''Carl''\<rparr>"

text \<open>
  Alice has 5, Bob 4 + 5 and Carl 9; the entry of 20 belongs to a player who was removed.
\<close>

definition exampleGame :: GameState where
  "exampleGame =
     \<lparr>players = [alice, bob, carl],
      rounds = [[(''1700000000001'', 5), (''1700000000002'', 4), (''1700000000003'', 9),
                 (''1700000000000'', 20)],
                [(''1700000000002'', 5)]],
      activeRoundIndex = Num 1,
      winCondition = high,
      sortBy = defaultSort\<rparr>"

text \<open>Alice and Bob are tied at 10, Carl has 5.\<close>

definition tieGame :: GameState where
  "tieGame =
     \<lparr>players = [alice, bob, carl],
      rounds = [[(''1700000000001'', 10), (''1700000000002'', 12), (''1700000000003'', 5)],
                [(''1700000000002'', - 2)]],
      activeRoundIndex = Num 1,
      winCondition = high,
      sortBy = defaultSort\<rparr>"

text \<open>One player \<open>p1\<close> who scored \<open>-7\<close> in the only round.\<close>

definition p1Game :: GameState where
  "p1Game =
     \<lparr>players = [\<lparr>idP = ''p1'', name = ''Ann''\<rparr>],
      rounds = [[(''p1'', - 7)]],
      activeRoundIndex = Num 0,
      winCondition = high,
      sortBy = defaultSort\<rparr>"

text \<open>The state of a first start: nothing is saved under any key.\<close>

definition freshGame :: GameState where
  "freshGame = initialState (\<lambda>_. None) (\<lambda>_. None) (\<lambda>_. Null)"

section \<open>Lemmas\<close>

subsection \<open>Totals\<close>

lemma scoreIn_Nil: "scoreIn [] k = 0"
  by (simp add: scoreIn_def)

lemma scoreIn_Cons: "scoreIn (e # r) k = (if fst e = k then snd e else 0) + scoreIn r k"
  by (simp add: scoreIn_def)

lemma addEntry_apply:
  "addEntry totals e k =
     (case totals k of None \<Rightarrow> None | Some t \<Rightarrow> Some (t + (if fst e = k then snd e else 0)))"
  by (cases "totals (fst e)") (auto simp: addEntry_def split: option.splits)

lemma addRound_apply:
  "addRound totals r k = (case totals k of None \<Rightarrow> None | Some t \<Rightarrow> Some (t + scoreIn r k))"
  unfolding addRound_def
proof (induction r arbitrary: totals)
  case Nil
  show ?case by (simp add: scoreIn_Nil split: option.splits)
next
  case (Cons e r)
  have "foldl addEntry totals (e # r) k = foldl addEntry (addEntry totals e) r k"
    by simp
  also have "\<dots> = (case addEntry totals e k of None \<Rightarrow> None | Some t \<Rightarrow> Some (t + scoreIn r k))"
    by (rule Cons.IH)
  also have "\<dots> = (case totals k of None \<Rightarrow> None | Some t \<Rightarrow> Some (t + scoreIn (e # r) k))"
    unfolding addEntry_apply [of totals e k] by (simp add: scoreIn_Cons split: option.splits)
  finally show ?case .
qed

lemma foldl_addRound_apply:
  "foldl addRound totals rs k =
     (case totals k of None \<Rightarrow> None | Some t \<Rightarrow> Some (t + (\<Sum>r\<leftarrow>rs. scoreIn r k)))"
proof (induction rs arbitrary: totals)
  case Nil
  show ?case by (simp split: option.splits)
next
  case (Cons r rs)
  have "foldl addRound totals (r # rs) k = foldl addRound (addRound totals r) rs k"
    by simp
  also have "\<dots> = (case addRound totals r k of None \<Rightarrow> None
                     | Some t \<Rightarrow> Some (t + (\<Sum>r\<leftarrow>rs. scoreIn r k)))"
    by (rule Cons.IH)
  also have "\<dots> = (case totals k of None \<Rightarrow> None
                     | Some t \<Rightarrow> Some (t + (\<Sum>r\<leftarrow>r # rs. scoreIn r k)))"
    unfolding addRound_apply [of totals r k] by (simp split: option.splits)
  finally show ?case .
qed

lemma foldl_init_apply:
  "foldl (\<lambda>totals p. totals(idP p \<mapsto> 0)) m ps k =
     (if k \<in> idP ` set ps then Some 0 else m k)"
  by (induction ps arbitrary: m) auto

lemma initTotals_apply: "initTotals ps k = (if k \<in> idP ` set ps then Some 0 else None)"
  by (simp add: initTotals_def foldl_init_apply)

lemma totalScores_apply:
  "totalScores s k =
     (if k \<in> idP ` set (players s) then Some (\<Sum>r\<leftarrow>rounds s. scoreIn r k) else None)"
  by (simp add: totalScores_def foldl_addRound_apply initTotals_apply)



lemma scoreIn_absent: "k \<notin> fst ` set r \<Longrightarrow> scoreIn r k = 0"
  by (induction r) (auto simp: scoreIn_Cons scoreIn_Nil)

lemma scoreIn_map_of:
  "distinct (map fst r) \<Longrightarrow> scoreIn r k = (case map_of r k of None \<Rightarrow> 0 | Some v \<Rightarrow> v)"
proof (induction r)
  case Nil
  show ?case by (simp add: scoreIn_Nil)
next
  case (Cons e r)
  obtain a b where e: "e = (a, b)" by (cases e)
  show ?case
  proof (cases "a = k")
    case True
    with Cons.prems e have "k \<notin> fst ` set r" by auto
    then show ?thesis using True e by (simp add: scoreIn_Cons scoreIn_absent)
  next
    case False
    then show ?thesis using Cons e by (simp add: scoreIn_Cons)
  qed
qed

subsection \<open>Leader\<close>

lemma totalScores_player:
  "p \<in> set (players s) \<Longrightarrow> totalScores s (idP p) = Some (totalOf s p)"
  by (simp add: totalScores_apply totalOf_def)

lemma leaderStep_Some:
  "totals (idP p) = Some x \<Longrightarrow>
   leaderStep high totals acc p = (if gtBest x (fst acc) then (Finite x, Some (idP p)) else acc)"
  "totals (idP p) = Some x \<Longrightarrow>
   leaderStep low totals acc p = (if ltBest x (fst acc) then (Finite x, Some (idP p)) else acc)"
  by (simp_all add: leaderStep_def)

text \<open>The scan under \<open>high\<close>: after a non-empty list, the first maximal player.\<close>

lemma scan_high:
  assumes "ps \<noteq> []" and "\<forall>p\<in>set ps. totals (idP p) = Some (tot p)"
  shows "\<exists>i<length ps.
           foldl (leaderStep high totals) (NegInfinity, None) ps
             = (Finite (tot (ps ! i)), Some (idP (ps ! i)))
         \<and> (\<forall>j<length ps. tot (ps ! j) \<le> tot (ps ! i))
         \<and> (\<forall>j<i. tot (ps ! j) < tot (ps ! i))"
  using assms
proof (induction ps rule: rev_induct)
  case Nil
  then show ?case by simp
next
  case (snoc p qs)
  have p: "totals (idP p) = Some (tot p)" using snoc.prems by simp
  show ?case
  proof (cases "qs = []")
    case True
    then show ?thesis using p by (simp add: leaderStep_Some)
  next
    case False
    with snoc obtain i where i: "i < length qs"
      and f: "foldl (leaderStep high totals) (NegInfinity, None) qs
                = (Finite (tot (qs ! i)), Some (idP (qs ! i)))"
      and mx: "\<forall>j<length qs. tot (qs ! j) \<le> tot (qs ! i)"
      and before: "\<forall>j<i. tot (qs ! j) < tot (qs ! i)"
      by auto
    show ?thesis
    proof (cases "tot (qs ! i) < tot p")
      case True
      have "foldl (leaderStep high totals) (NegInfinity, None) (qs @ [p])
              = (Finite (tot p), Some (idP p))"
        using f p True by (simp add: leaderStep_Some)
      moreover have "\<forall>j<length (qs @ [p]). tot ((qs @ [p]) ! j) \<le> tot p"
        using mx True by (fastforce simp: nth_append less_Suc_eq)
      moreover have "\<forall>j<length qs. tot ((qs @ [p]) ! j) < tot p"
        using mx True by (fastforce simp: nth_append)
      ultimately show ?thesis
        by (intro exI [of _ "length qs"]) (simp add: nth_append)
    next
      case False
      have "foldl (leaderStep high totals) (NegInfinity, None) (qs @ [p])
              = (Finite (tot (qs ! i)), Some (idP (qs ! i)))"
        using f p False by (simp add: leaderStep_Some)
      moreover have "\<forall>j<length (qs @ [p]). tot ((qs @ [p]) ! j) \<le> tot (qs ! i)"
        using mx False by (fastforce simp: nth_append less_Suc_eq)
      moreover have "\<forall>j<i. tot ((qs @ [p]) ! j) < tot (qs ! i)"
        using before i by (auto simp: nth_append)
      ultimately show ?thesis
        using i by (intro exI [of _ i]) (simp add: nth_append)
    qed
  qed
qed

text \<open>The scan under \<open>low\<close>: the first minimal player.\<close>

lemma scan_low:
  assumes "ps \<noteq> []" and "\<forall>p\<in>set ps. totals (idP p) = Some (tot p)"
  shows "\<exists>i<length ps.
           foldl (leaderStep low totals) (PosInfinity, None) ps
             = (Finite (tot (ps ! i)), Some (idP (ps ! i)))
         \<and> (\<forall>j<length ps. tot (ps ! i) \<le> tot (ps ! j))
         \<and> (\<forall>j<i. tot (ps ! i) < tot (ps ! j))"
  using assms
proof (induction ps rule: rev_induct)
  case Nil
  then show ?case by simp
next
  case (snoc p qs)
  have p: "totals (idP p) = Some (tot p)" using snoc.prems by simp
  show ?case
  proof (cases "qs = []")
    case True
    then show ?thesis using p by (simp add: leaderStep_Some)
  next
    case False
    with snoc obtain i where i: "i < length qs"
      and f: "foldl (leaderStep low totals) (PosInfinity, None) qs
                = (Finite (tot (qs ! i)), Some (idP (qs ! i)))"
      and mx: "\<forall>j<length qs. tot (qs ! i) \<le> tot (qs ! j)"
      and before: "\<forall>j<i. tot (qs ! i) < tot (qs ! j)"
      by auto
    show ?thesis
    proof (cases "tot p < tot (qs ! i)")
      case True
      have "foldl (leaderStep low totals) (PosInfinity, None) (qs @ [p])
              = (Finite (tot p), Some (idP p))"
        using f p True by (simp add: leaderStep_Some)
      moreover have "\<forall>j<length (qs @ [p]). tot p \<le> tot ((qs @ [p]) ! j)"
        using mx True by (fastforce simp: nth_append less_Suc_eq)
      moreover have "\<forall>j<length qs. tot p < tot ((qs @ [p]) ! j)"
        using mx True by (fastforce simp: nth_append)
      ultimately show ?thesis
        by (intro exI [of _ "length qs"]) (simp add: nth_append)
    next
      case False
      have "foldl (leaderStep low totals) (PosInfinity, None) (qs @ [p])
              = (Finite (tot (qs ! i)), Some (idP (qs ! i)))"
        using f p False by (simp add: leaderStep_Some)
      moreover have "\<forall>j<length (qs @ [p]). tot (qs ! i) \<le> tot ((qs @ [p]) ! j)"
        using mx False by (fastforce simp: nth_append less_Suc_eq)
      moreover have "\<forall>j<i. tot (qs ! i) < tot ((qs @ [p]) ! j)"
        using before i by (auto simp: nth_append)
      ultimately show ?thesis
        using i by (intro exI [of _ i]) (simp add: nth_append)
    qed
  qed
qed


lemma allZero_iff:
  "list_all (\<lambda>p. totalScores s (idP p) = Some 0) (players s)
     = (\<forall>p\<in>set (players s). totalOf s p = 0)"
  by (auto simp: list_all_iff totalScores_player)

lemma leaderId_None_iff:
  "(leaderId s = None) = (players s = [] \<or> (\<forall>p\<in>set (players s). totalOf s p = 0))"
proof (cases "players s = [] \<or> (\<forall>p\<in>set (players s). totalOf s p = 0)")
  case True
  then show ?thesis
    by (auto simp: leaderId_def leaderOf_def allZero_iff)
next
  case False
  then have ne: "players s \<noteq> []" and nz: "\<not> (\<forall>p\<in>set (players s). totalOf s p = 0)"
    by auto
  have tot: "\<forall>p\<in>set (players s). totalScores s (idP p) = Some (totalOf s p)"
    by (simp add: totalScores_player)
  have "leaderId s \<noteq> None"
  proof (cases "winCondition s")
    case high
    from scan_high [OF ne tot] obtain i where
      "foldl (leaderStep high (totalScores s)) (NegInfinity, None) (players s)
         = (Finite (totalOf s (players s ! i)), Some (idP (players s ! i)))"
      by blast
    then show ?thesis using ne nz high
      by (auto simp: leaderId_def leaderOf_def allZero_iff)
  next
    case low
    from scan_low [OF ne tot] obtain i where
      "foldl (leaderStep low (totalScores s)) (PosInfinity, None) (players s)
         = (Finite (totalOf s (players s ! i)), Some (idP (players s ! i)))"
      by blast
    then show ?thesis using ne nz low
      by (auto simp: leaderId_def leaderOf_def allZero_iff)
  qed
  with False show ?thesis by blast
qed

lemma leaderId_high:
  assumes "leaderId s \<noteq> None" and "winCondition s = high"
  shows "\<exists>i<length (players s).
           leaderId s = Some (idP (players s ! i))
         \<and> (\<forall>j<length (players s). totalOf s (players s ! j) \<le> totalOf s (players s ! i))
         \<and> (\<forall>j<i. totalOf s (players s ! j) < totalOf s (players s ! i))"
proof -
  from assms(1) have ne: "players s \<noteq> []" and nz: "\<not> (\<forall>p\<in>set (players s). totalOf s p = 0)"
    by (auto simp: leaderId_None_iff)
  have tot: "\<forall>p\<in>set (players s). totalScores s (idP p) = Some (totalOf s p)"
    by (simp add: totalScores_player)
  have "leaderId s = snd (foldl (leaderStep high (totalScores s)) (NegInfinity, None) (players s))"
    using ne nz assms(2) by (auto simp: leaderId_def leaderOf_def allZero_iff)
  with scan_high [OF ne tot] show ?thesis by auto
qed

lemma leaderId_low:
  assumes "leaderId s \<noteq> None" and "winCondition s = low"
  shows "\<exists>i<length (players s).
           leaderId s = Some (idP (players s ! i))
         \<and> (\<forall>j<length (players s). totalOf s (players s ! i) \<le> totalOf s (players s ! j))
         \<and> (\<forall>j<i. totalOf s (players s ! i) < totalOf s (players s ! j))"
proof -
  from assms(1) have ne: "players s \<noteq> []" and nz: "\<not> (\<forall>p\<in>set (players s). totalOf s p = 0)"
    by (auto simp: leaderId_None_iff)
  have tot: "\<forall>p\<in>set (players s). totalScores s (idP p) = Some (totalOf s p)"
    by (simp add: totalScores_player)
  have "leaderId s = snd (foldl (leaderStep low (totalScores s)) (PosInfinity, None) (players s))"
    using ne nz assms(2) by (auto simp: leaderId_def leaderOf_def allZero_iff)
  with scan_low [OF ne tot] show ?thesis by auto
qed

lemma leaderId_is_player:
  assumes "leaderId s = Some k"
  shows "k \<in> idP ` set (players s)"
proof (cases "winCondition s")
  case high
  with assms leaderId_high [of s] show ?thesis by force
next
  case low
  with assms leaderId_low [of s] show ?thesis by force
qed

subsection \<open>Decimal strings\<close>

declare natToString.simps [simp del]

lemma digitChar_code:
  assumes "d < 10"
  shows "(of_char (digitChar d) :: nat) = 48 + d"
proof -
  from assms have "d \<in> {0, 1, 2, 3, 4, 5, 6, 7, 8, 9}"
    by auto
  then show ?thesis
    by (auto simp: digitChar_def)
qed

lemma digitChar_props:
  assumes "d < 10"
  shows "isDigit (digitChar d)" and "digitValue (digitChar d) = d"
    and "\<not> isWhiteSpace (digitChar d)"
  using assms by (simp_all add: isDigit_def digitValue_def isWhiteSpace_def digitChar_code)

lemma isDigit_not_sign: "isDigit c \<Longrightarrow> c \<noteq> CHR ''-'' \<and> c \<noteq> CHR ''+''"
  by (auto simp: isDigit_def)

lemma digitsValue_snoc: "digitsValue (ds @ [c]) = 10 * digitsValue ds + digitValue c"
  by (simp add: digitsValue_def)

lemma digitsValue_natToString: "digitsValue (natToString n) = n"
proof (induction n rule: natToString.induct)
  case (1 n)
  show ?case
  proof (cases "n < 10")
    case True
    then show ?thesis
      by (subst natToString.simps) (simp add: digitsValue_def digitChar_props)
  next
    case False
    with 1 have "digitsValue (natToString (n div 10)) = n div 10" by simp
    with False show ?thesis
      by (subst natToString.simps) (simp add: digitsValue_snoc digitChar_props)
  qed
qed

lemma natToString_digits: "list_all isDigit (natToString n)"
proof (induction n rule: natToString.induct)
  case (1 n)
  then show ?case
    by (subst natToString.simps) (simp add: digitChar_props)
qed

lemma natToString_not_Nil: "natToString n \<noteq> []"
  by (subst natToString.simps) simp

lemma parseDigits_natToString: "parseDigits sign (natToString n) = Num (sign * int n)"
proof -
  have tk: "takeWhile isDigit (natToString n) = natToString n"
    using natToString_digits [of n] by (simp add: takeWhile_eq_all_conv list_all_iff)
  show ?thesis
    unfolding parseDigits_def Let_def tk
    by (simp add: natToString_not_Nil digitsValue_natToString)
qed

lemma parseInt_natToString: "parseInt (natToString n) = Num (int n)"
proof -
  obtain c cs where cs: "natToString n = c # cs"
    using natToString_not_Nil [of n] by (cases "natToString n") auto
  have d: "isDigit c" using natToString_digits [of n] cs by simp
  then have ws: "\<not> isWhiteSpace c" by (auto simp: isDigit_def isWhiteSpace_def)
  have "parseInt (natToString n) = parseDigits 1 (natToString n)"
    using cs ws isDigit_not_sign [OF d] by (simp add: parseInt_def)
  then show ?thesis by (simp add: parseDigits_natToString)
qed

lemma parseInt_numberToString: "parseInt (numberToString i) = Num i"
proof (cases "i < 0")
  case True
  have "\<not> isWhiteSpace CHR ''-''" by (simp add: isWhiteSpace_def)
  then have "parseInt (numberToString i) = parseDigits (- 1) (natToString (nat (- i)))"
    using True by (simp add: numberToString_def parseInt_def)
  with True show ?thesis by (simp add: parseDigits_natToString)
next
  case False
  then show ?thesis by (simp add: numberToString_def parseInt_natToString)
qed

lemma numberToString_inj: "numberToString i = numberToString j \<Longrightarrow> i = j"
proof -
  assume "numberToString i = numberToString j"
  then have "parseInt (numberToString i) = parseInt (numberToString j)" by simp
  then show "i = j" by (simp add: parseInt_numberToString)
qed

lemma parseInt_NaN_iff:
  "(parseInt str = NaN) =
     (case dropWhile isWhiteSpace str of
        [] \<Rightarrow> True
      | c # rest \<Rightarrow>
          if c = CHR ''-'' \<or> c = CHR ''+'' then (case rest of [] \<Rightarrow> True | d # _ \<Rightarrow> \<not> isDigit d)
          else \<not> isDigit c)"
proof (cases "dropWhile isWhiteSpace str")
  case Nil
  show ?thesis unfolding parseInt_def Nil by simp
next
  case (Cons c rest)
  show ?thesis
    unfolding parseInt_def Cons by (cases rest) (simp_all add: parseDigits_def Let_def)
qed

subsection \<open>trim\<close>

lemma trim_outer:
  assumes "trim str \<noteq> []"
  shows "\<not> isWhiteSpace (hd (trim str))" and "\<not> isWhiteSpace (last (trim str))"
proof -
  define ys where "ys = dropWhile isWhiteSpace str"
  define zs where "zs = dropWhile isWhiteSpace (rev ys)"
  have t: "trim str = rev zs" by (simp add: trim_def ys_def zs_def)
  with assms have zs: "zs \<noteq> []" by simp
  then have ys: "ys \<noteq> []" by (auto simp: zs_def)
  have "\<not> isWhiteSpace (hd zs)" using zs unfolding zs_def by (rule hd_dropWhile)
  then show "\<not> isWhiteSpace (last (trim str))" using zs by (simp add: t last_rev)
  have hy: "\<not> isWhiteSpace (hd ys)" using ys unfolding ys_def by (rule hd_dropWhile)
  obtain us where "rev ys = us @ zs"
    unfolding zs_def by (metis takeWhile_dropWhile_id)
  then have "last zs = last (rev ys)" using zs by simp
  then have "last zs = hd ys" using ys by (simp add: last_rev)
  then show "\<not> isWhiteSpace (hd (trim str))" using hy zs by (simp add: t hd_rev)
qed

subsection \<open>Sorting\<close>

lemma mset_insertCmp: "mset (insertCmp cmp x xs) = add_mset x (mset xs)"
  by (induction xs) simp_all

lemma mset_sortCmp: "mset (sortCmp cmp xs) = mset xs"
  by (induction xs) (simp_all add: sortCmp_def mset_insertCmp)

lemma set_insertCmp: "set (insertCmp cmp x xs) = insert x (set xs)"
  by (induction xs) auto

lemma set_sortCmp: "set (sortCmp cmp xs) = set xs"
  by (induction xs) (simp_all add: sortCmp_def set_insertCmp)

lemma sortCmp_cong:
  "(\<And>a b. a \<in> set xs \<Longrightarrow> b \<in> set xs \<Longrightarrow> cmp a b = cmp' a b) \<Longrightarrow> sortCmp cmp xs = sortCmp cmp' xs"
proof (induction xs)
  case Nil
  show ?case by (simp add: sortCmp_def)
next
  case (Cons x xs)
  then have eq: "sortCmp cmp xs = sortCmp cmp' xs" by simp
  have "set ys \<subseteq> set xs \<Longrightarrow> insertCmp cmp x ys = insertCmp cmp' x ys" for ys
    by (induction ys) (simp_all add: Cons.prems)
  from this [of "sortCmp cmp' xs"] eq show ?case
    by (simp add: sortCmp_def set_sortCmp [unfolded sortCmp_def])
qed

text \<open>A comparator that is total and transitive on \<open>A\<close> sorts the lists over \<open>A\<close>.\<close>

lemma sorted_insertCmp:
  assumes total: "\<And>a b. a \<in> A \<Longrightarrow> b \<in> A \<Longrightarrow> cmp a b \<le> 0 \<or> cmp b a \<le> 0"
    and trans: "\<And>a b c. a \<in> A \<Longrightarrow> b \<in> A \<Longrightarrow> c \<in> A \<Longrightarrow> cmp a b \<le> 0 \<Longrightarrow> cmp b c \<le> 0 \<Longrightarrow> cmp a c \<le> 0"
    and "x \<in> A" and "set ys \<subseteq> A" and "sorted_wrt (\<lambda>a b. cmp a b \<le> 0) ys"
  shows "sorted_wrt (\<lambda>a b. cmp a b \<le> 0) (insertCmp cmp x ys)"
  using assms(3-)
proof (induction ys)
  case Nil
  show ?case by simp
next
  case (Cons y ys)
  show ?case
  proof (cases "cmp x y \<le> 0")
    case True
    have "cmp x z \<le> 0" if "z \<in> set ys" for z
    proof -
      have "cmp y z \<le> 0" using Cons.prems(3) that by simp
      with True show ?thesis using trans [of x y z] Cons.prems that by auto
    qed
    with True Cons.prems show ?thesis by simp
  next
    case False
    then have yx: "cmp y x \<le> 0" using total [of x y] Cons.prems by auto
    have "sorted_wrt (\<lambda>a b. cmp a b \<le> 0) (insertCmp cmp x ys)"
      using Cons by simp
    with False yx Cons.prems show ?thesis
      by (auto simp: set_insertCmp)
  qed
qed

lemma sorted_sortCmp:
  assumes total: "\<And>a b. a \<in> A \<Longrightarrow> b \<in> A \<Longrightarrow> cmp a b \<le> 0 \<or> cmp b a \<le> 0"
    and trans: "\<And>a b c. a \<in> A \<Longrightarrow> b \<in> A \<Longrightarrow> c \<in> A \<Longrightarrow> cmp a b \<le> 0 \<Longrightarrow> cmp b c \<le> 0 \<Longrightarrow> cmp a c \<le> 0"
    and "set xs \<subseteq> A"
  shows "sorted_wrt (\<lambda>a b. cmp a b \<le> 0) (sortCmp cmp xs)"
  using assms(3)
proof (induction xs)
  case Nil
  show ?case by (simp add: sortCmp_def)
next
  case (Cons x xs)
  then have "sorted_wrt (\<lambda>a b. cmp a b \<le> 0) (sortCmp cmp xs)" by simp
  moreover have "set (sortCmp cmp xs) \<subseteq> A" using Cons.prems by (simp add: set_sortCmp)
  moreover have "x \<in> A" using Cons.prems by simp
  ultimately have "sorted_wrt (\<lambda>a b. cmp a b \<le> 0) (insertCmp cmp x (sortCmp cmp xs))"
    using sorted_insertCmp [of A cmp x "sortCmp cmp xs"] total trans by blast
  then show ?case by (simp add: sortCmp_def)
qed

lemma sortedPlayers_scoreDesc:
  "sortBy s = scoreDesc \<Longrightarrow>
   sortedPlayers lc s = sortCmp (\<lambda>a b. totalOf s b - totalOf s a) (players s)"
  by (auto simp: sortedPlayers_def Let_def subtract_def totalScores_player intro!: sortCmp_cong)

lemma sortedPlayers_scoreAsc:
  "sortBy s = scoreAsc \<Longrightarrow>
   sortedPlayers lc s = sortCmp (\<lambda>a b. totalOf s a - totalOf s b) (players s)"
  by (auto simp: sortedPlayers_def Let_def subtract_def totalScores_player intro!: sortCmp_cong)

lemma sortedPlayers_nameAsc:
  "sortBy s = nameAsc \<Longrightarrow>
   sortedPlayers lc s = sortCmp (\<lambda>a b. lc (name a) (name b)) (players s)"
  by (simp add: sortedPlayers_def)

lemma sortedPlayers_default: "sortBy s = defaultSort \<Longrightarrow> sortedPlayers lc s = players s"
  by (simp add: sortedPlayers_def)

lemma mset_sortedPlayers: "mset (sortedPlayers lc s) = mset (players s)"
  by (cases "sortBy s") (simp_all add: sortedPlayers_def Let_def mset_sortCmp)

lemma sortedPlayers_desc_sorted:
  assumes "sortBy s = scoreDesc"
  shows "sorted_wrt (\<lambda>a b. totalOf s b \<le> totalOf s a) (sortedPlayers lc s)"
proof -
  have "sorted_wrt (\<lambda>a b. totalOf s b - totalOf s a \<le> 0)
          (sortCmp (\<lambda>a b. totalOf s b - totalOf s a) (players s))"
    by (rule sorted_sortCmp [where A = UNIV]) auto
  then show ?thesis by (simp add: sortedPlayers_scoreDesc [OF assms])
qed

lemma sortedPlayers_asc_sorted:
  assumes "sortBy s = scoreAsc"
  shows "sorted_wrt (\<lambda>a b. totalOf s a \<le> totalOf s b) (sortedPlayers lc s)"
proof -
  have "sorted_wrt (\<lambda>a b. totalOf s a - totalOf s b \<le> 0)
          (sortCmp (\<lambda>a b. totalOf s a - totalOf s b) (players s))"
    by (rule sorted_sortCmp [where A = UNIV]) auto
  then show ?thesis by (simp add: sortedPlayers_scoreAsc [OF assms])
qed

lemma sortedPlayers_name_sorted:
  assumes "sortBy s = nameAsc"
    and total: "\<forall>a b. lc a b \<le> 0 \<or> lc b a \<le> 0"
    and trans: "\<forall>a b c. lc a b \<le> 0 \<and> lc b c \<le> 0 \<longrightarrow> lc a c \<le> 0"
  shows "sorted_wrt (\<lambda>a b. lc (name a) (name b) \<le> 0) (sortedPlayers lc s)"
proof -
  have "sorted_wrt (\<lambda>a b. lc (name a) (name b) \<le> 0)
          (sortCmp (\<lambda>a b. lc (name a) (name b)) (players s))"
  proof (rule sorted_sortCmp [where A = UNIV])
    show "lc (name a) (name b) \<le> 0 \<or> lc (name b) (name a) \<le> 0" for a b :: Player
      using total by blast
    show "lc (name a) (name b) \<le> 0 \<Longrightarrow> lc (name b) (name c) \<le> 0 \<Longrightarrow> lc (name a) (name c) \<le> 0"
      for a b c :: Player
      using trans by blast
  qed simp
  then show ?thesis by (simp add: sortedPlayers_nameAsc [OF assms(1)])
qed

lemma sortedPlayers_desc_example:
  assumes "sortBy s = scoreDesc" and "players s = [a, b, c]"
    and "totalOf s a = 5" and "totalOf s b = 9" and "totalOf s c = 9"
  shows "sortedPlayers lc s = [b, c, a]"
  using assms by (simp add: sortedPlayers_scoreDesc sortCmp_def)

lemma sortedPlayers_name_example:
  assumes "sortBy s = nameAsc" and "players s = [a, b, c]"
    and "lc (name a) (name b) < 0" and "lc (name b) (name c) < 0"
  shows "sortedPlayers lc s = [a, b, c]"
  using assms by (simp add: sortedPlayers_nameAsc sortCmp_def)

subsection \<open>Handlers\<close>

lemma arraySet_inside:
  "i < length rs \<Longrightarrow> arraySet rs (Num (int i)) v = rs[i := v]"
  by (simp add: arraySet_def)

lemma arrayGet_inside:
  "i < length rs \<Longrightarrow> arrayGet rs (Num (int i)) = rs ! i"
  by (simp add: arrayGet_def)

lemma length_arraySet: "length rs \<le> length (arraySet rs ix v)"
  by (cases ix) (auto simp: arraySet_def)

lemma set_arraySet: "set (arraySet rs ix v) \<subseteq> insert v (insert [] (set rs))"
proof (cases ix)
  case NaN
  then show ?thesis by (auto simp: arraySet_def)
next
  case (Num i)
  then show ?thesis
    using set_update_subset_insert [of rs "nat i" v] by (auto simp: arraySet_def)
qed

lemma arrayGet_distinct:
  "list_all (\<lambda>r. distinct (map fst r)) rs \<Longrightarrow> distinct (map fst (arrayGet rs ix))"
  by (cases ix) (auto simp: arrayGet_def list_all_iff)

lemma handleScoreChange_empty:
  "handleScoreChange playerId [] s =
     s\<lparr>rounds := arraySet (rounds s) (activeRoundIndex s)
          (AList.update playerId 0 (arrayGet (rounds s) (activeRoundIndex s)))\<rparr>"
  by (simp add: handleScoreChange_def)

lemma handleScoreChange_NaN:
  "val \<noteq> [] \<Longrightarrow> parseInt val = NaN \<Longrightarrow> handleScoreChange playerId val s = s"
  by (simp add: handleScoreChange_def)

lemma handleScoreChange_Num:
  "val \<noteq> [] \<Longrightarrow> parseInt val = Num n \<Longrightarrow>
   handleScoreChange playerId val s =
     s\<lparr>rounds := arraySet (rounds s) (activeRoundIndex s)
          (AList.update playerId n (arrayGet (rounds s) (activeRoundIndex s)))\<rparr>"
  by (simp add: handleScoreChange_def)

lemma handleScoreChange_cases:
  "handleScoreChange playerId val s = s \<or>
   (\<exists>n. handleScoreChange playerId val s =
      s\<lparr>rounds := arraySet (rounds s) (activeRoundIndex s)
           (AList.update playerId n (arrayGet (rounds s) (activeRoundIndex s)))\<rparr>)"
  by (cases "if val = [] then Num 0 else parseInt val") (auto simp: handleScoreChange_def)

lemma handleScoreChange_frame:
  "players (handleScoreChange playerId val s) = players s"
  "activeRoundIndex (handleScoreChange playerId val s) = activeRoundIndex s"
  "winCondition (handleScoreChange playerId val s) = winCondition s"
  "sortBy (handleScoreChange playerId val s) = sortBy s"
  "length (rounds s) \<le> length (rounds (handleScoreChange playerId val s))"
  using handleScoreChange_cases [of playerId val s] length_arraySet
  by (auto simp: handleScoreChange_def)

lemma handleNextRound_last:
  "activeRoundIndex s = Num (int (length (rounds s)) - 1) \<Longrightarrow>
   handleNextRound s =
     s\<lparr>rounds := rounds s @ [[]], activeRoundIndex := Num (int (length (rounds s)))\<rparr>"
  by (simp add: handleNextRound_def plusOne_def)

lemma handleNextRound_inner:
  "activeRoundIndex s = Num i \<Longrightarrow> i \<noteq> int (length (rounds s)) - 1 \<Longrightarrow>
   handleNextRound s = s\<lparr>activeRoundIndex := Num (i + 1)\<rparr>"
  by (simp add: handleNextRound_def plusOne_def)

lemma handlePrevRound_zero: "activeRoundIndex s = Num 0 \<Longrightarrow> handlePrevRound s = s"
  by (simp add: handlePrevRound_def isPositive_def)

lemma handlePrevRound_pos:
  "activeRoundIndex s = Num i \<Longrightarrow> 0 < i \<Longrightarrow> handlePrevRound s = s\<lparr>activeRoundIndex := Num (i - 1)\<rparr>"
  by (simp add: handlePrevRound_def isPositive_def minusOne_def)

lemma roundIndexValid_handleNextRound: "roundIndexValid s \<Longrightarrow> roundIndexValid (handleNextRound s)"
  by (cases "activeRoundIndex s")
     (auto simp: roundIndexValid_def handleNextRound_def plusOne_def Let_def)

lemma roundIndexValid_handlePrevRound: "roundIndexValid s \<Longrightarrow> roundIndexValid (handlePrevRound s)"
  by (cases "activeRoundIndex s")
     (auto simp: roundIndexValid_def handlePrevRound_def minusOne_def isPositive_def)

lemma roundIndexValid_handleScoreChange:
  assumes "roundIndexValid s"
  shows "roundIndexValid (handleScoreChange playerId val s)"
proof -
  from assms obtain i where i: "activeRoundIndex s = Num (int i)" "i < length (rounds s)"
    by (cases "activeRoundIndex s") (auto simp: roundIndexValid_def intro: that [of "nat _"])
  show ?thesis
    using handleScoreChange_cases [of playerId val s] assms i
    by (auto simp: roundIndexValid_def arraySet_inside)
qed

lemma roundIndexValid_handle: "roundIndexValid s \<Longrightarrow> roundIndexValid (handle e s)"
proof (cases e)
  case (AddPlayer now nm)
  assume "roundIndexValid s"
  then show ?thesis using AddPlayer
    by (auto simp: roundIndexValid_def handleAddPlayer_def split: number.splits)
next
  case (ScoreChange playerId val)
  assume "roundIndexValid s"
  then show ?thesis using ScoreChange by (simp add: roundIndexValid_handleScoreChange)
next
  case NextRound
  assume "roundIndexValid s"
  then show ?thesis using NextRound by (simp add: roundIndexValid_handleNextRound)
next
  case PrevRound
  assume "roundIndexValid s"
  then show ?thesis using PrevRound by (simp add: roundIndexValid_handlePrevRound)
next
  case (DeletePlayer i)
  assume "roundIndexValid s"
  then show ?thesis using DeletePlayer
    by (auto simp: roundIndexValid_def handleDeletePlayer_def split: number.splits)
next
  case (ResetGame confirmed)
  assume "roundIndexValid s"
  then show ?thesis using ResetGame
    by (auto simp: roundIndexValid_def resetGame_def split: number.splits)
next
  case ToggleWinCondition
  assume "roundIndexValid s"
  then show ?thesis using ToggleWinCondition
    by (auto simp: roundIndexValid_def toggleWinCondition_def split: number.splits)
next
  case (SetSortBy opt)
  assume "roundIndexValid s"
  then show ?thesis using SetSortBy
    by (auto simp: roundIndexValid_def setSortBy_def split: number.splits)
qed

lemma rounds_handle_not_Nil: "rounds s \<noteq> [] \<Longrightarrow> rounds (handle e s) \<noteq> []"
proof (cases e)
  case (ScoreChange playerId val)
  assume "rounds s \<noteq> []"
  then show ?thesis
    using ScoreChange handleScoreChange_frame(5) [of s playerId val] by auto
qed (auto simp: handleAddPlayer_def handleNextRound_def handlePrevRound_def
       handleDeletePlayer_def resetGame_def toggleWinCondition_def setSortBy_def)

lemma distinctKeys_handle: "distinctKeys s \<Longrightarrow> distinctKeys (handle e s)"
proof (cases e)
  case (ScoreChange playerId val)
  assume d: "distinctKeys s"
  have "distinct (map fst (AList.update playerId n (arrayGet (rounds s) (activeRoundIndex s))))" for n
    using d by (simp add: distinctKeys_def arrayGet_distinct distinct_update)
  then have "list_all (\<lambda>r. distinct (map fst r))
               (arraySet (rounds s) (activeRoundIndex s)
                  (AList.update playerId n (arrayGet (rounds s) (activeRoundIndex s))))" for n
    using d set_arraySet [of "rounds s" "activeRoundIndex s"
        "AList.update playerId n (arrayGet (rounds s) (activeRoundIndex s))"]
    by (auto simp: list_all_iff distinctKeys_def)
  then show ?thesis
    using ScoreChange d handleScoreChange_cases [of playerId val s]
    by (auto simp: distinctKeys_def)
qed (auto simp: distinctKeys_def handleAddPlayer_def handleNextRound_def handlePrevRound_def
       handleDeletePlayer_def resetGame_def toggleWinCondition_def setSortBy_def)

lemma scoreIn_delete: "scoreIn (AList.delete a r) k = (if k = a then 0 else scoreIn r k)"
  by (induction r) (auto simp: scoreIn_Cons scoreIn_Nil)

lemma scoreIn_update:
  "distinct (map fst r) \<Longrightarrow> scoreIn (AList.update a v r) k = (if k = a then v else scoreIn r k)"
  by (simp add: scoreIn_map_of distinct_update update_conv')

lemma totalScores_rounds_cong:
  assumes "players s' = players s"
    and "map (\<lambda>r. scoreIn r k) (rounds s') = map (\<lambda>r. scoreIn r k) (rounds s)"
  shows "totalScores s' k = totalScores s k"
  using assms by (simp add: totalScores_apply)

subsection \<open>Initial state\<close>

lemma initialState_nothing_saved:
  "initialState parsePlayers parseRounds (\<lambda>key. Null)
     = \<lparr>players = [], rounds = [[]], activeRoundIndex = Num 0,
        winCondition = high, sortBy = defaultSort\<rparr>"
  "initialState parsePlayers parseRounds (\<lambda>key. Throws)
     = \<lparr>players = [], rounds = [[]], activeRoundIndex = Num 0,
        winCondition = high, sortBy = defaultSort\<rparr>"
  by (simp_all add: initialState_def initPlayers_def initRounds_def initActiveRoundIndex_def
      initWinCondition_def initSortBy_def)

lemma init_parse_failure:
  "storage ''cardScore_players'' = Saved saved \<Longrightarrow> jsonParse saved = None \<Longrightarrow>
   initPlayers jsonParse storage = []"
  "storage ''cardScore_rounds'' = Saved saved \<Longrightarrow> jsonParse' saved = None \<Longrightarrow>
   initRounds jsonParse' storage = [[]]"
  by (simp_all add: initPlayers_def initRounds_def)

lemma init_unknown_option:
  "storage ''cardScore_winCondition'' = Saved saved \<Longrightarrow> saved \<noteq> ''low'' \<Longrightarrow>
   initWinCondition storage = high"
  "storage ''cardScore_sortBy'' = Saved saved' \<Longrightarrow>
   saved' \<notin> {''scoreDesc'', ''scoreAsc'', ''nameAsc''} \<Longrightarrow>
   initSortBy storage = defaultSort"
  by (simp_all add: initWinCondition_def initSortBy_def)

lemma initActiveRoundIndex_saved:
  "storage ''cardScore_activeRoundIndex'' = Saved saved \<Longrightarrow> saved \<noteq> [] \<Longrightarrow>
   initActiveRoundIndex storage = parseInt saved"
  by (simp add: initActiveRoundIndex_def)

text \<open>Once \<open>activeRoundIndex\<close> is \<open>NaN\<close>, only a confirmed reset makes it a number again.\<close>

lemma NaN_index_stays:
  assumes "activeRoundIndex s = NaN" and "e \<noteq> ResetGame True"
  shows "activeRoundIndex (handle e s) = NaN"
proof (cases e)
  case (ScoreChange playerId val)
  then show ?thesis using assms by (simp add: handleScoreChange_frame)
next
  case (ResetGame confirmed)
  then show ?thesis using assms by (simp add: resetGame_def)
qed (use assms in \<open>simp_all add: handleAddPlayer_def handleNextRound_def handlePrevRound_def
       handleDeletePlayer_def toggleWinCondition_def setSortBy_def plusOne_def isPositive_def\<close>)

subsection \<open>Facts about the examples\<close>

lemma ordinalCompare_total: "\<forall>a b. ordinalCompare a b \<le> 0 \<or> ordinalCompare b a \<le> 0"
  by (auto simp: ordinalCompare_def)

lemma ordinalCompare_trans:
  "\<forall>a b c. ordinalCompare a b \<le> 0 \<and> ordinalCompare b c \<le> 0 \<longrightarrow> ordinalCompare a c \<le> 0"
  by (auto simp: ordinalCompare_def split: if_splits)

lemma timestamp_strings:
  "numberToString 1700000000000 = ''1700000000000''"
  "numberToString 1700000000001 = ''1700000000001''"
  by (simp_all add: numberToString_def natToString.simps digitChar_def)

lemma trim_examples:
  "trim ''   '' = []" "trim ''  Ann '' = ''Ann''" "trim ''Ann'' = ''Ann''" "trim ''Bob'' = ''Bob''"
  by code_simp+

lemma players_freshGame: "players freshGame = []"
  by code_simp

subsection \<open>Unique ids and plain keys\<close>



lemma numberToString_plain: "numberToString t \<notin> set objectPrototypeKeys"
proof -
  obtain c cs where cs: "natToString (nat t) = c # cs"
    using natToString_not_Nil [of "nat t"] by (cases "natToString (nat t)") auto
  have "isDigit c"
    using natToString_digits [of "nat t"] cs by simp
  then have "c \<noteq> CHR ''c'' \<and> c \<noteq> CHR ''h'' \<and> c \<noteq> CHR ''i'' \<and> c \<noteq> CHR ''p''
      \<and> c \<noteq> CHR ''t'' \<and> c \<noteq> CHR ''v'' \<and> c \<noteq> CHR ''_''"
    by (auto simp: isDigit_def)
  then show ?thesis
    using cs by (simp add: numberToString_def objectPrototypeKeys_def)
qed

section \<open>The claims\<close>

subsection \<open>Empty score input\<close>

text \<open>
  C1 (as amended). In a state whose \<open>activeRoundIndex\<close> is an index of \<open>rounds\<close>,
  \<open>handleScoreChange\<close> with the empty string stores the score 0 under the player's id
  in the active round and changes no other round: the key is present with value 0, the
  active round adds 0 to the player's total, and all totals are those of the state in
  which the player's entry is deleted from the active round.
\<close>

theorem C1_empty_input_stores_zero:
  assumes "activeRoundIndex s = Num (int i)" and "i < length (rounds s)" and "distinctKeys s"
  shows "rounds (handleScoreChange playerId '''' s)
           = (rounds s)[i := AList.update playerId 0 (rounds s ! i)]
   \<and> map_of (currentRoundScores (handleScoreChange playerId '''' s)) playerId = Some 0
   \<and> scoreIn (currentRoundScores (handleScoreChange playerId '''' s)) playerId = 0
   \<and> totalScores (handleScoreChange playerId '''' s)
       = totalScores (s\<lparr>rounds := (rounds s)[i := AList.delete playerId (rounds s ! i)]\<rparr>)"
proof -
  let ?r = "rounds s ! i"
  let ?s' = "handleScoreChange playerId '''' s"
  have d: "distinct (map fst ?r)"
    using assms by (simp add: distinctKeys_def list_all_length)
  have s': "?s' = s\<lparr>rounds := (rounds s)[i := AList.update playerId 0 ?r]\<rparr>"
    using assms by (simp add: handleScoreChange_empty arraySet_inside arrayGet_inside)
  have cur: "currentRoundScores ?s' = AList.update playerId 0 ?r"
    using assms by (simp add: s' currentRoundScores_def arrayGet_inside)
  have "totalScores ?s' k
          = totalScores (s\<lparr>rounds := (rounds s)[i := AList.delete playerId ?r]\<rparr>) k" for k
    by (rule totalScores_rounds_cong)
       (simp_all add: s' map_update scoreIn_update [OF d] scoreIn_delete)
  then have "totalScores ?s'
          = totalScores (s\<lparr>rounds := (rounds s)[i := AList.delete playerId ?r]\<rparr>)"
    by (rule ext)
  then show ?thesis
    by (simp add: cur scoreIn_update [OF d] update_conv') (simp add: s')
qed

theorem C1_empty_input_stores_zero_witness:
  "activeRoundIndex p1Game = Num (int 0) \<and> 0 < length (rounds p1Game) \<and> distinctKeys p1Game
   \<and> rounds (handleScoreChange ''p1'' '''' p1Game) = [[(''p1'', 0)]]
   \<and> totalScores p1Game ''p1'' = Some (- 7)
   \<and> totalScores (handleScoreChange ''p1'' '''' p1Game) ''p1'' = Some 0"
proof -
  have h: "activeRoundIndex p1Game = Num (int 0)" "0 < length (rounds p1Game)" "distinctKeys p1Game"
    by code_simp+
  note t = C1_empty_input_stores_zero [OF h, of "''p1''"]
  have "rounds (handleScoreChange ''p1'' '''' p1Game) = [[(''p1'', 0)]]"
    using t by (simp add: p1Game_def)
  moreover have "totalScores p1Game ''p1'' = Some (- 7)"
    by code_simp
  moreover have "totalScores (handleScoreChange ''p1'' '''' p1Game) ''p1'' = Some 0"
    by code_simp
  ultimately show ?thesis using h by simp
qed

theorem C1_empty_input_counterexample:
  "currentRoundScores p1Game = [(''p1'', - 7)]
   \<and> currentRoundScores (handleScoreChange ''p1'' '''' p1Game) = [(''p1'', 0)]
   \<and> map_of (currentRoundScores (handleScoreChange ''p1'' '''' p1Game)) ''p1'' \<noteq> None"
  by code_simp

subsection \<open>Loading the saved state\<close>

text \<open>
  C2. The initial state at the failing input: under the key of \<open>activeRoundIndex\<close> the
  store holds text without a number. \<open>parseInt\<close> does not throw, so the \<open>catch\<close> that
  returns 0 is not reached, and the field starts as \<open>NaN\<close>.
\<close>

theorem C2_saved_index_not_numeric:
  "activeRoundIndex
     (initialState parsePlayers parseRounds
        (\<lambda>key. if key = ''cardScore_activeRoundIndex'' then Saved ''abc'' else Null))
     = NaN"
proof -
  have "parseInt ''abc'' = NaN"
    by code_simp
  then show ?thesis
    by (simp add: initialState_def initActiveRoundIndex_def)
qed

subsection \<open>Adding a player\<close>

text \<open>
  C3 (as amended). \<open>handleAddPlayer\<close> changes nothing when the name is empty after
  trimming. Otherwise it appends exactly one player, whose name is the trimmed input
  (no white space at either end) and whose id is the decimal string of the clock reading
  \<open>Date.now()\<close>. That id differs from the id of every existing player when all existing
  ids are the strings of strictly earlier readings; and from distinct ids, an id that no
  player has yet leaves the ids distinct.
\<close>

theorem C3_add_player:
  "(trim nm = '''' \<longrightarrow> handleAddPlayer now nm s = s)
   \<and> (trim nm \<noteq> '''' \<longrightarrow>
        handleAddPlayer now nm s
          = s\<lparr>players := players s @ [\<lparr>idP = numberToString now, name = trim nm\<rparr>]\<rparr>
        \<and> \<not> isWhiteSpace (hd (trim nm)) \<and> \<not> isWhiteSpace (last (trim nm)))
   \<and> ((\<forall>p\<in>set (players s). \<exists>t<now. idP p = numberToString t) \<longrightarrow>
        numberToString now \<notin> idP ` set (players s))
   \<and> (trim nm \<noteq> '''' \<and> distinct (map idP (players s))
        \<and> numberToString now \<notin> idP ` set (players s) \<longrightarrow>
        distinct (map idP (players (handleAddPlayer now nm s))))"
proof (intro conjI impI)
  show "handleAddPlayer now nm s = s" if "trim nm = ''''"
    using that by (simp add: handleAddPlayer_def)
  show "handleAddPlayer now nm s
          = s\<lparr>players := players s @ [\<lparr>idP = numberToString now, name = trim nm\<rparr>]\<rparr>"
    if "trim nm \<noteq> ''''"
    using that by (simp add: handleAddPlayer_def)
  show "\<not> isWhiteSpace (hd (trim nm))" if "trim nm \<noteq> ''''"
    using that by (rule trim_outer)
  show "\<not> isWhiteSpace (last (trim nm))" if "trim nm \<noteq> ''''"
    using that by (rule trim_outer)
  show "numberToString now \<notin> idP ` set (players s)"
    if earlier: "\<forall>p\<in>set (players s). \<exists>t<now. idP p = numberToString t"
  proof
    assume "numberToString now \<in> idP ` set (players s)"
    then obtain p where "p \<in> set (players s)" and "idP p = numberToString now"
      by auto
    with earlier obtain t where "t < now" and "numberToString t = numberToString now"
      by force
    then show False by (auto dest: numberToString_inj)
  qed
  show "distinct (map idP (players (handleAddPlayer now nm s)))"
    if "trim nm \<noteq> '''' \<and> distinct (map idP (players s))
        \<and> numberToString now \<notin> idP ` set (players s)"
    using that by (simp add: handleAddPlayer_def)
qed

theorem C3_add_player_witness:
  "handleAddPlayer 1700000000000 ''   '' freshGame = freshGame
   \<and> players (handleAddPlayer 1700000000000 ''  Ann '' freshGame)
       = [\<lparr>idP = ''1700000000000'', name = ''Ann''\<rparr>]
   \<and> players (handleAddPlayer 1700000000001 ''Bob''
                (handleAddPlayer 1700000000000 ''  Ann '' freshGame))
       = [\<lparr>idP = ''1700000000000'', name = ''Ann''\<rparr>, \<lparr>idP = ''1700000000001'', name = ''Bob''\<rparr>]
   \<and> numberToString 1700000000001
       \<notin> idP ` set (players (handleAddPlayer 1700000000000 ''  Ann '' freshGame))"
proof -
  note e = trim_examples(1) and a = trim_examples(2) and b = trim_examples(4)
  note n0 = timestamp_strings(1) and n1 = timestamp_strings(2)
  note f = players_freshGame
  have 1: "handleAddPlayer 1700000000000 ''   '' freshGame = freshGame"
    using C3_add_player [of "''   ''" 1700000000000 freshGame] e by simp
  have 2: "players (handleAddPlayer 1700000000000 ''  Ann '' freshGame)
       = [\<lparr>idP = ''1700000000000'', name = ''Ann''\<rparr>]"
    using C3_add_player [of "''  Ann ''" 1700000000000 freshGame] a n0 f by simp
  let ?s = "handleAddPlayer 1700000000000 ''  Ann '' freshGame"
  note t = C3_add_player [of "''Bob''" 1700000000001 ?s]
  have 3: "players (handleAddPlayer 1700000000001 ''Bob'' ?s)
       = [\<lparr>idP = ''1700000000000'', name = ''Ann''\<rparr>, \<lparr>idP = ''1700000000001'', name = ''Bob''\<rparr>]"
    using t b n1 2 by simp
  have "\<forall>p\<in>set (players ?s). \<exists>t<1700000000001. idP p = numberToString t"
    using n0 by (auto simp: 2 intro!: exI [of _ 1700000000000])
  with t have 4: "numberToString 1700000000001 \<notin> idP ` set (players ?s)"
    by blast
  from 1 2 3 4 show ?thesis by blast
qed

theorem C3_add_player_counterexample:
  "map idP (players (handleAddPlayer 1700000000000 ''Bob''
                       (handleAddPlayer 1700000000000 ''Ann'' freshGame)))
     = [''1700000000000'', ''1700000000000'']
   \<and> \<not> distinct (map idP (players (handleAddPlayer 1700000000000 ''Bob''
                                      (handleAddPlayer 1700000000000 ''Ann'' freshGame))))"
  by (simp add: handleAddPlayer_def trim_examples timestamp_strings players_freshGame)

subsection \<open>The leader\<close>

text \<open>
  C4. In a state with safe scores and plain keys, \<open>leaderId\<close> is none exactly when
  there are no players or every player's total is 0. Otherwise it is the id of the first
  player, in the order of \<open>players\<close>, whose total is the best one: no player has a
  greater total (a lesser one under \<open>low\<close>), and every earlier player has a strictly
  worse total, so a tie goes to the earliest. The totals are those of \<open>totalScores\<close>.
\<close>

theorem C4_leaderId:
  assumes "safeScores s" and "plainKeys s"
  shows "(\<forall>p\<in>set (players s). totalScores s (idP p) = Some (totalOf s p))
   \<and> (leaderId s = None) = (players s = [] \<or> (\<forall>p\<in>set (players s). totalOf s p = 0))
   \<and> (leaderId s \<noteq> None \<and> winCondition s = high \<longrightarrow>
        (\<exists>i<length (players s).
            leaderId s = Some (idP (players s ! i))
          \<and> (\<forall>j<length (players s). totalOf s (players s ! j) \<le> totalOf s (players s ! i))
          \<and> (\<forall>j<i. totalOf s (players s ! j) < totalOf s (players s ! i))))
   \<and> (leaderId s \<noteq> None \<and> winCondition s = low \<longrightarrow>
        (\<exists>i<length (players s).
            leaderId s = Some (idP (players s ! i))
          \<and> (\<forall>j<length (players s). totalOf s (players s ! i) \<le> totalOf s (players s ! j))
          \<and> (\<forall>j<i. totalOf s (players s ! i) < totalOf s (players s ! j))))"
  using leaderId_None_iff [of s] leaderId_high [of s] leaderId_low [of s]
  by (simp add: totalScores_player)

theorem C4_leaderId_witness:
  "safeScores tieGame \<and> plainKeys tieGame
   \<and> totalScores tieGame (idP alice) = Some 10
   \<and> totalScores tieGame (idP bob) = Some 10
   \<and> totalScores tieGame (idP carl) = Some 5
   \<and> leaderId tieGame = Some (idP alice)
   \<and> leaderId (tieGame\<lparr>winCondition := low\<rparr>) = Some (idP carl)
   \<and> leaderId (tieGame\<lparr>rounds := [[]]\<rparr>) = None
   \<and> leaderId (tieGame\<lparr>rounds := [[]], winCondition := low\<rparr>) = None"
proof -
  have h: "safeScores tieGame" "plainKeys tieGame"
    by code_simp+
  have hz: "safeScores (tieGame\<lparr>rounds := [[]]\<rparr>)" "plainKeys (tieGame\<lparr>rounds := [[]]\<rparr>)"
    by code_simp+
  have hl: "safeScores (tieGame\<lparr>rounds := [[]], winCondition := low\<rparr>)"
    "plainKeys (tieGame\<lparr>rounds := [[]], winCondition := low\<rparr>)"
    by code_simp+
  have "\<forall>p\<in>set (players (tieGame\<lparr>rounds := [[]]\<rparr>)). totalOf (tieGame\<lparr>rounds := [[]]\<rparr>) p = 0"
    by (simp add: tieGame_def totalOf_def scoreIn_def)
  with C4_leaderId [OF hz] have z: "leaderId (tieGame\<lparr>rounds := [[]]\<rparr>) = None"
    by blast
  have "\<forall>p\<in>set (players (tieGame\<lparr>rounds := [[]], winCondition := low\<rparr>)).
          totalOf (tieGame\<lparr>rounds := [[]], winCondition := low\<rparr>) p = 0"
    by (simp add: tieGame_def totalOf_def scoreIn_def)
  with C4_leaderId [OF hl] have zl: "leaderId (tieGame\<lparr>rounds := [[]], winCondition := low\<rparr>) = None"
    by blast
  have t: "totalScores tieGame (idP alice) = Some 10" "totalScores tieGame (idP bob) = Some 10"
    "totalScores tieGame (idP carl) = Some 5"
    by code_simp+
  have a: "leaderId tieGame = Some (idP alice)"
    by code_simp
  have c: "leaderId (tieGame\<lparr>winCondition := low\<rparr>) = Some (idP carl)"
    by code_simp
  from h t a c z zl show ?thesis by blast
qed

subsection \<open>Totals\<close>



subsection \<open>Round navigation\<close>

text \<open>
  C6. In a state where \<open>activeRoundIndex\<close> is an index of \<open>rounds\<close> and there is at
  least one round, \<open>handleNextRound\<close> and \<open>handlePrevRound\<close> keep that so:
  \<open>handleNextRound\<close> at the last index appends one empty round and moves to it, elsewhere
  it only adds one to the index; \<open>handlePrevRound\<close> at index 0 changes nothing; and no
  event makes \<open>rounds\<close> empty or breaks the invariant.
\<close>

theorem C6_round_navigation:
  assumes "roundIndexValid s"
  shows "roundIndexValid (handleNextRound s)
   \<and> roundIndexValid (handlePrevRound s)
   \<and> (activeRoundIndex s = Num (int (length (rounds s)) - 1) \<longrightarrow>
        handleNextRound s =
          s\<lparr>rounds := rounds s @ [[]], activeRoundIndex := Num (int (length (rounds s)))\<rparr>)
   \<and> (\<forall>i. activeRoundIndex s = Num i \<and> i \<noteq> int (length (rounds s)) - 1 \<longrightarrow>
        handleNextRound s = s\<lparr>activeRoundIndex := Num (i + 1)\<rparr>)
   \<and> (activeRoundIndex s = Num 0 \<longrightarrow> handlePrevRound s = s)
   \<and> (\<forall>i. activeRoundIndex s = Num i \<and> 0 < i \<longrightarrow>
        handlePrevRound s = s\<lparr>activeRoundIndex := Num (i - 1)\<rparr>)
   \<and> (\<forall>e. rounds (handle e s) \<noteq> [] \<and> roundIndexValid (handle e s))"
proof -
  from assms have ne: "rounds s \<noteq> []"
    by (auto simp: roundIndexValid_def)
  show ?thesis
    using assms ne
    by (simp add: roundIndexValid_handleNextRound roundIndexValid_handlePrevRound
        handleNextRound_last handleNextRound_inner handlePrevRound_zero handlePrevRound_pos
        rounds_handle_not_Nil roundIndexValid_handle)
qed

theorem C6_round_navigation_witness:
  "roundIndexValid freshGame
   \<and> handleNextRound freshGame = freshGame\<lparr>rounds := [[], []], activeRoundIndex := Num 1\<rparr>
   \<and> roundIndexValid (handleNextRound freshGame)
   \<and> handlePrevRound freshGame = freshGame
   \<and> handleNextRound (handlePrevRound (handleNextRound freshGame))
       = freshGame\<lparr>rounds := [[], []], activeRoundIndex := Num 1\<rparr>
   \<and> rounds (handle (ResetGame True) (handleNextRound freshGame)) \<noteq> []"
proof -
  have v: "roundIndexValid freshGame"
    by code_simp
  note t = C6_round_navigation [OF v]
  have r: "rounds freshGame = [[]]" and a: "activeRoundIndex freshGame = Num 0"
    by code_simp+
  have n: "handleNextRound freshGame = freshGame\<lparr>rounds := [[], []], activeRoundIndex := Num 1\<rparr>"
    using t r a by simp
  have p: "handlePrevRound freshGame = freshGame"
    using t a by simp
  have v': "roundIndexValid (handleNextRound freshGame)"
    using t by simp
  have "handlePrevRound (handleNextRound freshGame) = freshGame\<lparr>rounds := [[], []]\<rparr>"
    using C6_round_navigation [OF v'] a by (simp add: n)
  moreover have "handleNextRound (freshGame\<lparr>rounds := [[], []]\<rparr>)
      = freshGame\<lparr>rounds := [[], []], activeRoundIndex := Num 1\<rparr>"
    using a by (simp add: handleNextRound_inner [of _ 0])
  moreover have "rounds (handle (ResetGame True) (handleNextRound freshGame)) \<noteq> []"
    using C6_round_navigation [OF v'] by blast
  ultimately show ?thesis using v n p v' by simp
qed

subsection \<open>Rejected score input\<close>

text \<open>
  C7. A value that is not empty and that \<open>parseInt\<close> does not read as an integer (after
  leading white space and an optional sign it does not start with a digit) is rejected:
  \<open>handleScoreChange\<close> returns the state it was given, with the score stored before.
  The handler is a total function, so nothing is raised.
\<close>

theorem C7_non_numeric_rejected:
  assumes "val \<noteq> ''''" and "parseInt val = NaN"
  shows "handleScoreChange playerId val s = s"
  using assms by (rule handleScoreChange_NaN)

theorem C7_non_numeric_rejected_witness:
  "''abc'' \<noteq> '''' \<and> parseInt ''abc'' = NaN
   \<and> handleScoreChange ''p1'' ''abc'' p1Game = p1Game
   \<and> currentRoundScores (handleScoreChange ''p1'' ''abc'' p1Game) = [(''p1'', - 7)]"
proof -
  have n: "parseInt ''abc'' = NaN"
    by code_simp
  have e: "''abc'' \<noteq> ''''"
    by simp
  have "handleScoreChange ''p1'' ''abc'' p1Game = p1Game"
    using C7_non_numeric_rejected [OF e n] .
  moreover have "currentRoundScores p1Game = [(''p1'', - 7)]"
    by code_simp
  ultimately show ?thesis using n by simp
qed

subsection \<open>Sorted players\<close>

text \<open>
  C8. In a state with safe scores and plain keys, \<open>sortedPlayers\<close> returns a
  rearrangement of \<open>players\<close> (which stays as it is):
  \<open>players\<close> itself under \<open>defaultSort\<close>; with totals that never increase along the
  list under \<open>scoreDesc\<close> and never decrease under \<open>scoreAsc\<close>; and, for a comparison
  of names that is total and transitive, with names in the order of that comparison
  under \<open>nameAsc\<close>. For three players with totals 5, 9 and 9 in that order,
  \<open>scoreDesc\<close> puts the two players with 9 before the one with 5; for names that the
  comparison puts in the order of \<open>players\<close>, \<open>nameAsc\<close> returns \<open>players\<close>.
\<close>

theorem C8_sortedPlayers:
  assumes "safeScores s" and "plainKeys s"
    and "\<forall>a b. localeCompare a b \<le> 0 \<or> localeCompare b a \<le> 0"
    and "\<forall>a b c. localeCompare a b \<le> 0 \<and> localeCompare b c \<le> 0 \<longrightarrow> localeCompare a c \<le> 0"
  shows "mset (sortedPlayers localeCompare s) = mset (players s)
   \<and> (sortBy s = defaultSort \<longrightarrow> sortedPlayers localeCompare s = players s)
   \<and> (sortBy s = scoreDesc \<longrightarrow>
        sorted_wrt (\<lambda>a b. totalOf s b \<le> totalOf s a) (sortedPlayers localeCompare s))
   \<and> (sortBy s = scoreAsc \<longrightarrow>
        sorted_wrt (\<lambda>a b. totalOf s a \<le> totalOf s b) (sortedPlayers localeCompare s))
   \<and> (sortBy s = nameAsc \<longrightarrow>
        sorted_wrt (\<lambda>a b. localeCompare (name a) (name b) \<le> 0) (sortedPlayers localeCompare s))
   \<and> (\<forall>a b c. sortBy s = scoreDesc \<and> players s = [a, b, c]
          \<and> totalOf s a = 5 \<and> totalOf s b = 9 \<and> totalOf s c = 9 \<longrightarrow>
        (\<exists>x y. sortedPlayers localeCompare s = [x, y, a] \<and> {x, y} = {b, c}))
   \<and> (\<forall>a b c. sortBy s = nameAsc \<and> players s = [a, b, c]
          \<and> localeCompare (name a) (name b) < 0 \<and> localeCompare (name b) (name c) < 0 \<longrightarrow>
        sortedPlayers localeCompare s = [a, b, c])"
proof (intro conjI impI allI)
  show "mset (sortedPlayers localeCompare s) = mset (players s)"
    by (rule mset_sortedPlayers)
  show "sortedPlayers localeCompare s = players s" if "sortBy s = defaultSort"
    using that by (rule sortedPlayers_default)
  show "sorted_wrt (\<lambda>a b. totalOf s b \<le> totalOf s a) (sortedPlayers localeCompare s)"
    if "sortBy s = scoreDesc"
    using that by (rule sortedPlayers_desc_sorted)
  show "sorted_wrt (\<lambda>a b. totalOf s a \<le> totalOf s b) (sortedPlayers localeCompare s)"
    if "sortBy s = scoreAsc"
    using that by (rule sortedPlayers_asc_sorted)
  show "sorted_wrt (\<lambda>a b. localeCompare (name a) (name b) \<le> 0) (sortedPlayers localeCompare s)"
    if "sortBy s = nameAsc"
    using that assms(3,4) by (rule sortedPlayers_name_sorted)
  show "\<exists>x y. sortedPlayers localeCompare s = [x, y, a] \<and> {x, y} = {b, c}"
    if "sortBy s = scoreDesc \<and> players s = [a, b, c]
          \<and> totalOf s a = 5 \<and> totalOf s b = 9 \<and> totalOf s c = 9" for a b c
    using that sortedPlayers_desc_example [of s a b c localeCompare] by blast
  show "sortedPlayers localeCompare s = [a, b, c]"
    if "sortBy s = nameAsc \<and> players s = [a, b, c]
          \<and> localeCompare (name a) (name b) < 0 \<and> localeCompare (name b) (name c) < 0" for a b c
    using that sortedPlayers_name_example [of s a b c localeCompare] by blast
qed

theorem C8_sortedPlayers_witness:
  "safeScores exampleGame \<and> plainKeys exampleGame
   \<and> (\<forall>a b. ordinalCompare a b \<le> 0 \<or> ordinalCompare b a \<le> 0)
   \<and> sortedPlayers ordinalCompare (exampleGame\<lparr>sortBy := defaultSort\<rparr>) = [alice, bob, carl]
   \<and> last (sortedPlayers ordinalCompare (exampleGame\<lparr>sortBy := scoreDesc\<rparr>)) = alice
   \<and> set (butlast (sortedPlayers ordinalCompare (exampleGame\<lparr>sortBy := scoreDesc\<rparr>))) = {bob, carl}
   \<and> hd (sortedPlayers ordinalCompare (exampleGame\<lparr>sortBy := scoreAsc\<rparr>)) = alice
   \<and> sortedPlayers ordinalCompare (exampleGame\<lparr>players := [carl, bob, alice], sortBy := nameAsc\<rparr>)
       = [alice, bob, carl]
   \<and> sortedPlayers ordinalCompare (exampleGame\<lparr>sortBy := nameAsc\<rparr>) = [alice, bob, carl]"
proof -
  note tot = ordinalCompare_total and tr = ordinalCompare_trans
  have h: "safeScores exampleGame" "plainKeys exampleGame"
    by code_simp+
  have hd: "safeScores (exampleGame\<lparr>sortBy := defaultSort\<rparr>)"
    "plainKeys (exampleGame\<lparr>sortBy := defaultSort\<rparr>)"
    by code_simp+
  have hs: "safeScores (exampleGame\<lparr>sortBy := scoreDesc\<rparr>)"
    "plainKeys (exampleGame\<lparr>sortBy := scoreDesc\<rparr>)"
    by code_simp+
  have hn: "safeScores (exampleGame\<lparr>sortBy := nameAsc\<rparr>)"
    "plainKeys (exampleGame\<lparr>sortBy := nameAsc\<rparr>)"
    by code_simp+
  have p: "players exampleGame = [alice, bob, carl]"
    by (simp add: exampleGame_def)
  have ta: "totalOf (exampleGame\<lparr>sortBy := scoreDesc\<rparr>) alice = 5"
    and tb: "totalOf (exampleGame\<lparr>sortBy := scoreDesc\<rparr>) bob = 9"
    and tc: "totalOf (exampleGame\<lparr>sortBy := scoreDesc\<rparr>) carl = 9"
    by code_simp+
  have nm: "ordinalCompare (name alice) (name bob) < 0" "ordinalCompare (name bob) (name carl) < 0"
    by (simp_all add: ordinalCompare_def alice_def bob_def carl_def)
  have 1: "sortedPlayers ordinalCompare (exampleGame\<lparr>sortBy := defaultSort\<rparr>) = [alice, bob, carl]"
    using C8_sortedPlayers [OF hd tot tr] p by simp
  obtain x y where xy: "sortedPlayers ordinalCompare (exampleGame\<lparr>sortBy := scoreDesc\<rparr>) = [x, y, alice]"
      "{x, y} = {bob, carl}"
    using C8_sortedPlayers [OF hs tot tr] p ta tb tc
    by force
  have 2: "last (sortedPlayers ordinalCompare (exampleGame\<lparr>sortBy := scoreDesc\<rparr>)) = alice"
    and 3: "set (butlast (sortedPlayers ordinalCompare (exampleGame\<lparr>sortBy := scoreDesc\<rparr>))) = {bob, carl}"
    using xy by simp_all
  have 4: "hd (sortedPlayers ordinalCompare (exampleGame\<lparr>sortBy := scoreAsc\<rparr>)) = alice"
    by code_simp
  have 5: "sortedPlayers ordinalCompare (exampleGame\<lparr>players := [carl, bob, alice], sortBy := nameAsc\<rparr>)
       = [alice, bob, carl]"
    by code_simp
  have 6: "sortedPlayers ordinalCompare (exampleGame\<lparr>sortBy := nameAsc\<rparr>) = [alice, bob, carl]"
    using C8_sortedPlayers [OF hn tot tr] p nm by simp
  from h tot 1 2 3 4 5 6 show ?thesis by blast
qed

subsection \<open>Reset and removal\<close>

text \<open>
  C9. \<open>resetGame\<close>, once confirmed, replaces \<open>rounds\<close> by a single empty round and sets
  \<open>activeRoundIndex\<close> to 0, and leaves \<open>players\<close>, \<open>winCondition\<close> and \<open>sortBy\<close> as they
  were; not confirmed, it changes nothing. \<open>handleDeletePlayer\<close> keeps, in their order,
  exactly the players whose id is not the given one, leaves all other fields, \<open>rounds\<close>
  with the entries under that id included, unchanged, and applying it twice is the same
  as applying it once.
\<close>

theorem C9_reset_and_delete:
  "resetGame True s = s\<lparr>rounds := [[]], activeRoundIndex := Num 0\<rparr>
   \<and> players (resetGame True s) = players s
   \<and> winCondition (resetGame True s) = winCondition s
   \<and> sortBy (resetGame True s) = sortBy s
   \<and> resetGame False s = s
   \<and> handleDeletePlayer i (handleDeletePlayer i s) = handleDeletePlayer i s
   \<and> handleDeletePlayer i s = s\<lparr>players := filter (\<lambda>p. idP p \<noteq> i) (players s)\<rparr>
   \<and> rounds (handleDeletePlayer i s) = rounds s
   \<and> activeRoundIndex (handleDeletePlayer i s) = activeRoundIndex s
   \<and> winCondition (handleDeletePlayer i s) = winCondition s
   \<and> sortBy (handleDeletePlayer i s) = sortBy s"
  by (simp add: resetGame_def handleDeletePlayer_def)

theorem C9_reset_and_delete_witness:
  "resetGame True exampleGame = exampleGame\<lparr>rounds := [[]], activeRoundIndex := Num 0\<rparr>
   \<and> players (resetGame True exampleGame) = [alice, bob, carl]
   \<and> players (handleDeletePlayer (idP bob) exampleGame) = [alice, carl]
   \<and> players (handleDeletePlayer (idP bob) (handleDeletePlayer (idP bob) exampleGame)) = [alice, carl]
   \<and> rounds (handleDeletePlayer (idP bob) exampleGame) = rounds exampleGame
   \<and> scoreIn (rounds (handleDeletePlayer (idP bob) exampleGame) ! 1) (idP bob) = 5"
proof -
  note t = C9_reset_and_delete [of exampleGame "idP bob"]
  have p: "players exampleGame = [alice, bob, carl]"
    by (simp add: exampleGame_def)
  have d: "players (handleDeletePlayer (idP bob) exampleGame) = [alice, carl]"
    using t by (simp add: exampleGame_def alice_def bob_def carl_def)
  have sc: "scoreIn (rounds exampleGame ! 1) (idP bob) = 5"
    by code_simp
  from t have i: "handleDeletePlayer (idP bob) (handleDeletePlayer (idP bob) exampleGame)
      = handleDeletePlayer (idP bob) exampleGame"
    and r: "rounds (handleDeletePlayer (idP bob) exampleGame) = rounds exampleGame"
    and rs: "resetGame True exampleGame = exampleGame\<lparr>rounds := [[]], activeRoundIndex := Num 0\<rparr>"
    and pr: "players (resetGame True exampleGame) = players exampleGame"
    by blast+
  show ?thesis
    unfolding i r using rs pr p d sc by simp
qed

subsection \<open>The leader is a current player\<close>

text \<open>
  C10. An id that \<open>leaderId\<close> returns is the id of a player in \<open>players\<close>. The id of a
  player who was removed is never returned, whatever entries the rounds still hold
  under it.
\<close>

theorem C10_leader_is_current_player:
  "(\<forall>k. leaderId s = Some k \<longrightarrow> k \<in> idP ` set (players s))
   \<and> leaderId (handleDeletePlayer i s) \<noteq> Some i"
proof
  show "\<forall>k. leaderId s = Some k \<longrightarrow> k \<in> idP ` set (players s)"
    using leaderId_is_player by blast
  show "leaderId (handleDeletePlayer i s) \<noteq> Some i"
  proof
    assume "leaderId (handleDeletePlayer i s) = Some i"
    then have "i \<in> idP ` set (players (handleDeletePlayer i s))"
      by (rule leaderId_is_player)
    then show False by (auto simp: handleDeletePlayer_def)
  qed
qed

theorem C10_leader_is_current_player_witness:
  "leaderId exampleGame = Some (idP bob)
   \<and> idP bob \<in> idP ` set (players exampleGame)
   \<and> scoreIn (rounds (handleDeletePlayer (idP bob) exampleGame) ! 0) (idP bob) = 4
   \<and> leaderId (handleDeletePlayer (idP bob) exampleGame) \<noteq> Some (idP bob)"
proof -
  note t = C10_leader_is_current_player [of exampleGame "idP bob"]
  have l: "leaderId exampleGame = Some (idP bob)"
    by code_simp
  with t have "idP bob \<in> idP ` set (players exampleGame)"
    by blast
  moreover have "scoreIn (rounds (handleDeletePlayer (idP bob) exampleGame) ! 0) (idP bob) = 4"
    by code_simp
  ultimately show ?thesis using t l by blast
qed

end
